theory Spec2Isabelle
  imports Complex_Main
begin

section \<open>The diagnostic logger of Script.js\<close>

text \<open>
  The development embeds the class \<^verbatim>\<open>Logger\<close> of \<^verbatim>\<open>src/Script.js\<close> (lines 2 to 130):
  its constructor, the private \<^verbatim>\<open>_log\<close>, the five logging methods, the two
  performance methods, \<^verbatim>\<open>getLogs\<close>, \<^verbatim>\<open>clearLogs\<close> and \<^verbatim>\<open>exportLogs\<close>.
  Mutation of the object and of the browser (localStorage, the console, the download
  offered by \<^verbatim>\<open>exportLogs\<close>) is explicit state passing: every method takes the
  pair of the logger and the world and returns the new pair.
\<close>

subsection \<open>Values\<close>

text \<open>
  A number of the language is a real or NaN (the infinities and the negative zero play no
  part in the class). A payload (\<^verbatim>\<open>data\<close>) is a value of the language; only its
  truthiness is inspected, by \<^verbatim>\<open>data || ''\<close> at line 53.
\<close>

datatype number = Num real | NaN

datatype jsval =
    JNull
  | JBool bool
  | JNumber number
  | JString string
  | JObject "(string \<times> jsval) list"
  | JArray "jsval list"

fun truthy :: "jsval \<Rightarrow> bool" where
  "truthy JNull = False"
| "truthy (JBool b) = b"
| "truthy (JNumber (Num r)) = (r \<noteq> 0)"
| "truthy (JNumber NaN) = False"
| "truthy (JString s) = (s \<noteq> [])"
| "truthy (JObject ps) = True"
| "truthy (JArray vs) = True"

text \<open>The five severities with which \<^verbatim>\<open>_log\<close> is called (lines 70 to 88).\<close>

datatype severity = DEBUG | INFO | WARN | ERROR | SUCCESS

fun severity_name :: "severity \<Rightarrow> string" where
  "severity_name DEBUG = ''debug''"
| "severity_name INFO = ''info''"
| "severity_name WARN = ''warn''"
| "severity_name ERROR = ''error''"
| "severity_name SUCCESS = ''success''"

text \<open>\<^verbatim>\<open>String.prototype.toUpperCase\<close> on the ASCII letters, which is all a severity name holds.\<close>

definition toUpperCase :: "string \<Rightarrow> string" where
  "toUpperCase s =
     map (\<lambda>c. let n = (of_char c :: nat) in if 97 \<le> n \<and> n \<le> 122 then char_of (n - 32) else c) s"

subsection \<open>The logger and the world around it\<close>

text \<open>The object literal built at lines 20 to 27.\<close>

record logEntry =
  timestamp :: string
  level :: severity
  message :: string
  data :: jsval
  userAgent :: string
  url :: string

text \<open>
  The fields set by the constructor (lines 4 to 13). \<^verbatim>\<open>maxLogs\<close> is an integer,
  as the specification types it; line 9 keeps every integer but 0, the negative ones
  included. \<^verbatim>\<open>performanceMarks\<close>
  holds the own properties of the object literal \<^verbatim>\<open>{}\<close> of line 13; the properties
  it inherits are in \<open>Object_prototype\<close> below.
\<close>

record logger =
  enabled :: bool
  level :: string
  prefix :: string
  logToConsole :: bool
  logToStorage :: bool
  maxLogs :: int
  logs :: "logEntry list"
  performanceMarks :: "string \<rightharpoonup> real"

text \<open>
  The options object of the constructor: each property is absent (\<open>None\<close>) or has a
  value of the type the class expects of it.
\<close>

record options =
  opt_enabled :: "bool option"
  opt_level :: "string option"
  opt_prefix :: "string option"
  opt_console :: "bool option"
  opt_storage :: "bool option"
  opt_maxLogs :: "int option"

text \<open>
  What the console receives: the four arguments of \<^verbatim>\<open>console.log\<close> (lines 49 to 54)
  or the two of \<^verbatim>\<open>console.warn\<close> (line 42), the second being the error caught.
\<close>

datatype console_line =
    ConsoleLog string string string jsval
  | ConsoleWarn string string

text \<open>
  The world: localStorage as a map from keys to strings, the lines written to the console
  so far (oldest first), and the files offered for download (name and content).
\<close>

record world =
  storage :: "string \<rightharpoonup> string"
  console :: "console_line list"
  downloads :: "(string \<times> string) list"

text \<open>
  The built-in functions of the platform that the class calls and that are given, not
  reimplemented: the subtraction of two finite numbers, which rounds its result,
  \<^verbatim>\<open>Number.prototype.toFixed\<close> with two digits on a finite number,
  \<^verbatim>\<open>JSON.stringify(logs)\<close> and \<^verbatim>\<open>JSON.stringify(logs, null, 2)\<close>.
\<close>

record host =
  minus_number :: "real \<Rightarrow> real \<Rightarrow> real"
  toFixed2 :: "real \<Rightarrow> string"
  stringify :: "logEntry list \<Rightarrow> string"
  stringify_pretty :: "logEntry list \<Rightarrow> string"

text \<open>
  What the platform answers during one call of a public method:
  \<^verbatim>\<open>new Date().toISOString()\<close>, \<^verbatim>\<open>performance.now()\<close>,
  \<^verbatim>\<open>navigator.userAgent\<close>, \<^verbatim>\<open>window.location.href\<close>, the time stamp
  that \<^verbatim>\<open>exportLogs\<close> reads for its file name, and whether
  \<^verbatim>\<open>localStorage.setItem\<close> accepts the write (\<open>None\<close>) or throws
  (\<open>Some\<close> of the error). A reading of the clock is the real number that the
  double stands for.
\<close>

record env =
  date_iso :: string
  performance_now :: real
  navigator_userAgent :: string
  location_href :: string
  file_stamp :: string
  setItem_throws :: "string option"

subsection \<open>The constructor\<close>

text \<open>
  Lines 4 to 13. \<^verbatim>\<open>x !== false\<close> holds unless the option is the boolean false,
  \<^verbatim>\<open>x === true\<close> only if it is the boolean true, and \<^verbatim>\<open>x || d\<close> is
  \<^verbatim>\<open>d\<close> when the option is absent or falsy: the empty string, the number 0.
\<close>

definition new_Logger :: "options \<Rightarrow> logger" where
  "new_Logger opts =
     \<lparr> enabled = (opt_enabled opts \<noteq> Some False),
       level = (case opt_level opts of None \<Rightarrow> ''info''
                | Some s \<Rightarrow> if s = [] then ''info'' else s),
       prefix = (case opt_prefix opts of None \<Rightarrow> ''[BDWS]''
                 | Some s \<Rightarrow> if s = [] then ''[BDWS]'' else s),
       logToConsole = (opt_console opts \<noteq> Some False),
       logToStorage = (opt_storage opts = Some True),
       maxLogs = (case opt_maxLogs opts of None \<Rightarrow> 100
                  | Some n \<Rightarrow> if n = 0 then 100 else n),
       logs = [],
       performanceMarks = Map.empty \<rparr>"

subsection \<open>Logging\<close>

text \<open>Lines 58 to 67: every severity has its entry in the table of styles.\<close>

fun Logger_getLogStyle :: "severity \<Rightarrow> string" where
  "Logger_getLogStyle DEBUG =
     ''background: #9E9E9E; color: white; padding: 2px 5px; border-radius: 3px;''"
| "Logger_getLogStyle INFO =
     ''background: #2196F3; color: white; padding: 2px 5px; border-radius: 3px;''"
| "Logger_getLogStyle WARN =
     ''background: #FF9800; color: white; padding: 2px 5px; border-radius: 3px;''"
| "Logger_getLogStyle ERROR =
     ''background: #F44336; color: white; padding: 2px 5px; border-radius: 3px;''"
| "Logger_getLogStyle SUCCESS =
     ''background: #4CAF50; color: white; padding: 2px 5px; border-radius: 3px;''"

text \<open>The key under which the buffer is mirrored (lines 40 and 114).\<close>

definition logs_key :: string where
  "logs_key = ''bdws_logs''"

text \<open>
  \<^verbatim>\<open>localStorage.setItem\<close>: the write is done, or the call throws and the store is
  as before.
\<close>

definition setItem :: "env \<Rightarrow> string \<Rightarrow> string \<Rightarrow> (string \<rightharpoonup> string) \<Rightarrow> string + (string \<rightharpoonup> string)" where
  "setItem e k v st = (case setItem_throws e of Some err \<Rightarrow> Inl err | None \<Rightarrow> Inr (st(k \<mapsto> v)))"

definition removeItem :: "string \<Rightarrow> (string \<rightharpoonup> string) \<Rightarrow> (string \<rightharpoonup> string)" where
  "removeItem k st = st(k := None)"

text \<open>The entry of lines 20 to 27; a payload left out is \<^verbatim>\<open>null\<close> (line 17).\<close>

definition make_entry :: "env \<Rightarrow> severity \<Rightarrow> string \<Rightarrow> jsval option \<Rightarrow> logEntry" where
  "make_entry e lvl msg d =
     \<lparr> timestamp = date_iso e,
       logEntry.level = lvl,
       message = msg,
       data = (case d of None \<Rightarrow> JNull | Some v \<Rightarrow> v),
       userAgent = navigator_userAgent e,
       url = location_href e \<rparr>"

text \<open>Lines 30 to 35: \<^verbatim>\<open>push\<close>, then one \<^verbatim>\<open>shift\<close> if the buffer is over its bound.\<close>

definition push_bounded :: "int \<Rightarrow> logEntry list \<Rightarrow> logEntry \<Rightarrow> logEntry list" where
  "push_bounded cap xs x = (let ys = xs @ [x] in if int (length ys) > cap then tl ys else ys)"

text \<open>Lines 38 to 44: the write with its \<^verbatim>\<open>try\<close> and \<^verbatim>\<open>catch\<close>.\<close>

definition mirror :: "host \<Rightarrow> env \<Rightarrow> logEntry list \<Rightarrow> world \<Rightarrow> world" where
  "mirror H e ls w =
     (case setItem e logs_key (stringify H ls) (storage w) of
        Inr st \<Rightarrow> w\<lparr>storage := st\<rparr>
      | Inl err \<Rightarrow> w\<lparr>console := console w @ [ConsoleWarn ''Failed to save logs to storage:'' err]\<rparr>)"

text \<open>Lines 47 to 55.\<close>

definition emit :: "logger \<Rightarrow> severity \<Rightarrow> string \<Rightarrow> jsval \<Rightarrow> world \<Rightarrow> world" where
  "emit l lvl msg d w =
     w\<lparr>console := console w @
          [ConsoleLog (''%c'' @ prefix l @ '' ['' @ toUpperCase (severity_name lvl) @ '']'')
                      (Logger_getLogStyle lvl) msg (if truthy d then d else JString '''')]\<rparr>"

text \<open>\<^verbatim>\<open>_log\<close>, lines 17 to 56.\<close>

definition Logger_log :: "host \<Rightarrow> env \<Rightarrow> severity \<Rightarrow> string \<Rightarrow> jsval option \<Rightarrow> logger \<times> world \<Rightarrow> logger \<times> world" where
  "Logger_log H e lvl msg d s =
     (case s of (l, w) \<Rightarrow>
        if \<not> enabled l then (l, w)
        else
          let logEntry = make_entry e lvl msg d;
              l1 = l\<lparr>logs := push_bounded (maxLogs l) (logs l) logEntry\<rparr>;
              w1 = (if logToStorage l1 then mirror H e (logs l1) w else w);
              w2 = (if logToConsole l1 then emit l1 lvl msg (data logEntry) w1 else w1)
          in (l1, w2))"

text \<open>The public logging methods, lines 70 to 88.\<close>

definition debug :: "host \<Rightarrow> env \<Rightarrow> string \<Rightarrow> jsval option \<Rightarrow> logger \<times> world \<Rightarrow> logger \<times> world" where
  "debug H e msg d s = Logger_log H e DEBUG msg d s"

definition info :: "host \<Rightarrow> env \<Rightarrow> string \<Rightarrow> jsval option \<Rightarrow> logger \<times> world \<Rightarrow> logger \<times> world" where
  "info H e msg d s = Logger_log H e INFO msg d s"

definition warn :: "host \<Rightarrow> env \<Rightarrow> string \<Rightarrow> jsval option \<Rightarrow> logger \<times> world \<Rightarrow> logger \<times> world" where
  "warn H e msg d s = Logger_log H e WARN msg d s"

definition error :: "host \<Rightarrow> env \<Rightarrow> string \<Rightarrow> jsval option \<Rightarrow> logger \<times> world \<Rightarrow> logger \<times> world" where
  "error H e msg d s = Logger_log H e ERROR msg d s"

definition success :: "host \<Rightarrow> env \<Rightarrow> string \<Rightarrow> jsval option \<Rightarrow> logger \<times> world \<Rightarrow> logger \<times> world" where
  "success H e msg d s = Logger_log H e SUCCESS msg d s"

subsection \<open>Performance marks\<close>

text \<open>
  \<^verbatim>\<open>performanceMarks\<close> is an object literal, so a read of
  \<^verbatim>\<open>this.performanceMarks[label]\<close> that finds no own property goes on to
  \<^verbatim>\<open>Object.prototype\<close>, whose properties are listed here. Each of them is a function,
  except \<^verbatim>\<open>__proto__\<close>, which reads as \<^verbatim>\<open>Object.prototype\<close> itself.
\<close>

definition Object_prototype :: "string list" where
  "Object_prototype =
     [''constructor'', ''__defineGetter__'', ''__defineSetter__'', ''hasOwnProperty'',
      ''__lookupGetter__'', ''__lookupSetter__'', ''isPrototypeOf'', ''propertyIsEnumerable'',
      ''toString'', ''valueOf'', ''__proto__'', ''toLocaleString'']"

text \<open>
  What a read of a property gives: \<^verbatim>\<open>undefined\<close>, a clock reading stored by
  \<^verbatim>\<open>startPerformance\<close>, or an inherited function or object.
\<close>

datatype property = Undefined | Reading real | Inherited

definition get_mark :: "(string \<rightharpoonup> real) \<Rightarrow> string \<Rightarrow> property" where
  "get_mark m k =
     (case m k of
        Some t \<Rightarrow> Reading t
      | None \<Rightarrow> if k \<in> set Object_prototype then Inherited else Undefined)"

text \<open>
  The assignment of line 92 creates or overwrites an own property; for the key
  \<^verbatim>\<open>__proto__\<close> it calls the inherited setter, which ignores a number.
\<close>

definition put_mark :: "(string \<rightharpoonup> real) \<Rightarrow> string \<Rightarrow> real \<Rightarrow> (string \<rightharpoonup> real)" where
  "put_mark m k t = (if k = ''__proto__'' then m else m(k \<mapsto> t))"

text \<open>\<^verbatim>\<open>delete\<close> (line 100) removes an own property and nothing else.\<close>

definition delete_mark :: "(string \<rightharpoonup> real) \<Rightarrow> string \<Rightarrow> (string \<rightharpoonup> real)" where
  "delete_mark m k = m(k := None)"

text \<open>The test of line 97 is the truthiness of what was read: the number 0 is falsy.\<close>

fun truthy_property :: "property \<Rightarrow> bool" where
  "truthy_property Undefined = False"
| "truthy_property (Reading t) = (t \<noteq> 0)"
| "truthy_property Inherited = True"

text \<open>
  The subtraction of line 98: of two readings it is the subtraction of the platform; a
  function or an object converts to NaN, and so does \<^verbatim>\<open>undefined\<close>.
\<close>

fun elapsed :: "host \<Rightarrow> real \<Rightarrow> property \<Rightarrow> number" where
  "elapsed H now (Reading t) = Num (minus_number H now t)"
| "elapsed H now Inherited = NaN"
| "elapsed H now Undefined = NaN"

text \<open>\<^verbatim>\<open>duration.toFixed(2)\<close>: a number that is not finite prints as its name.\<close>

definition toFixed :: "host \<Rightarrow> number \<Rightarrow> string" where
  "toFixed H n = (case n of NaN \<Rightarrow> ''NaN'' | Num r \<Rightarrow> toFixed2 H r)"

text \<open>Lines 91 to 94.\<close>

definition startPerformance :: "host \<Rightarrow> env \<Rightarrow> string \<Rightarrow> logger \<times> world \<Rightarrow> logger \<times> world" where
  "startPerformance H e label s =
     (case s of (l, w) \<Rightarrow>
        debug H e (''Performance tracking started: '' @ label) None
          (l\<lparr>performanceMarks := put_mark (performanceMarks l) label (performance_now e)\<rparr>, w))"

text \<open>
  Lines 96 to 103. The first component is the value returned: \<open>None\<close> when the method
  runs off its end and returns nothing.
\<close>

definition endPerformance :: "host \<Rightarrow> env \<Rightarrow> string \<Rightarrow> logger \<times> world \<Rightarrow> number option \<times> logger \<times> world" where
  "endPerformance H e label s =
     (case s of (l, w) \<Rightarrow>
        if truthy_property (get_mark (performanceMarks l) label) then
          let duration = elapsed H (performance_now e) (get_mark (performanceMarks l) label);
              s1 = info H e (''Performance: '' @ label @ '' completed in '' @ toFixed H duration @ ''ms'')
                     None (l, w);
              l2 = (fst s1)\<lparr>performanceMarks := delete_mark (performanceMarks (fst s1)) label\<rparr>
          in (Some duration, l2, snd s1)
        else (None, l, w))"

subsection \<open>Reading, clearing and exporting the buffer\<close>

text \<open>Lines 106 to 108.\<close>

definition getLogs :: "logger \<Rightarrow> logEntry list" where
  "getLogs l = logs l"

text \<open>Lines 111 to 117.\<close>

definition clearLogs :: "host \<Rightarrow> env \<Rightarrow> logger \<times> world \<Rightarrow> logger \<times> world" where
  "clearLogs H e s =
     (case s of (l, w) \<Rightarrow>
        let l1 = l\<lparr>logs := []\<rparr>;
            w1 = (if logToStorage l1 then w\<lparr>storage := removeItem logs_key (storage w)\<rparr> else w)
        in info H e ''Logs cleared'' None (l1, w1))"

text \<open>
  Lines 120 to 129: the pretty-printed buffer is offered as a file whose name carries a
  time stamp, then the success is logged.
\<close>

definition exportLogs :: "host \<Rightarrow> env \<Rightarrow> logger \<times> world \<Rightarrow> logger \<times> world" where
  "exportLogs H e s =
     (case s of (l, w) \<Rightarrow>
        let dataStr = stringify_pretty H (logs l);
            w1 = w\<lparr>downloads := downloads w @ [(''bdws-logs-'' @ file_stamp e @ ''.json'', dataStr)]\<rparr>
        in success H e ''Logs exported successfully'' None (l, w1))"

subsection \<open>Sequences of calls\<close>

text \<open>
  A call of one of the five logging methods, with its severity, message and payload,
  dispatched to the method of that name.
\<close>

fun log_call :: "host \<Rightarrow> env \<Rightarrow> severity \<Rightarrow> string \<Rightarrow> jsval option \<Rightarrow> logger \<times> world \<Rightarrow> logger \<times> world" where
  "log_call H e DEBUG msg d s = debug H e msg d s"
| "log_call H e INFO msg d s = info H e msg d s"
| "log_call H e WARN msg d s = warn H e msg d s"
| "log_call H e ERROR msg d s = error H e msg d s"
| "log_call H e SUCCESS msg d s = success H e msg d s"

text \<open>The public operations that change the logger or the world.\<close>

datatype call =
    Log severity string "jsval option"
  | StartPerformance string
  | EndPerformance string
  | ClearLogs
  | ExportLogs

fun exec :: "host \<Rightarrow> env \<Rightarrow> call \<Rightarrow> logger \<times> world \<Rightarrow> logger \<times> world" where
  "exec H e (Log lvl msg d) s = log_call H e lvl msg d s"
| "exec H e (StartPerformance label) s = startPerformance H e label s"
| "exec H e (EndPerformance label) s = snd (endPerformance H e label s)"
| "exec H e ClearLogs s = clearLogs H e s"
| "exec H e ExportLogs s = exportLogs H e s"

text \<open>A sequence of calls, each with what the platform answers during it, run in order.\<close>

fun run :: "host \<Rightarrow> (env \<times> call) list \<Rightarrow> logger \<times> world \<Rightarrow> logger \<times> world" where
  "run H [] s = s"
| "run H (ec # ecs) s = run H ecs (exec H (fst ec) (snd ec) s)"

text \<open>A sequence of logging calls only, and the entry each of them builds.\<close>

type_synonym logging = "env \<times> severity \<times> string \<times> jsval option"

fun log_calls :: "host \<Rightarrow> logging list \<Rightarrow> logger \<times> world \<Rightarrow> logger \<times> world" where
  "log_calls H [] s = s"
| "log_calls H (c # cs) s =
     log_calls H cs (case c of (e, lvl, msg, d) \<Rightarrow> log_call H e lvl msg d s)"

definition entry_of :: "logging \<Rightarrow> logEntry" where
  "entry_of c = (case c of (e, lvl, msg, d) \<Rightarrow> make_entry e lvl msg d)"

subsection \<open>The invariant of the class\<close>

text \<open>
  The capacity is not 0, and the buffer is within it or, when the capacity is negative,
  empty. The constructor establishes both and every method keeps them.
\<close>

definition bounded :: "logger \<Rightarrow> bool" where
  "bounded l = (maxLogs l \<noteq> 0 \<and> int (length (logs l)) \<le> max 0 (maxLogs l))"


subsection \<open>Concrete inputs\<close>

text \<open>
  The options of \<^verbatim>\<open>new Logger()\<close>, a browser with an empty store and an empty
  console, one set of answers of the platform, and a stand-in for its built-in functions,
  which subtracts without rounding and prints every finite number as 0.00 and a buffer as
  the messages of its entries. The
  examples below are built from them; the theorems hold for every host.
\<close>

definition default_options :: options where
  "default_options = \<lparr> opt_enabled = None, opt_level = None, opt_prefix = None,
                        opt_console = None, opt_storage = None, opt_maxLogs = None \<rparr>"

definition empty_world :: world where
  "empty_world = \<lparr> storage = Map.empty, console = [], downloads = [] \<rparr>"

definition sample_host :: host where
  "sample_host = \<lparr> minus_number = (\<lambda>a b. a - b), toFixed2 = (\<lambda>r. ''0.00''),
                     stringify = (\<lambda>ls. concat (map (\<lambda>x. message x @ '';'') ls)),
                     stringify_pretty = (\<lambda>ls. concat (map (\<lambda>x. message x @ ''; '') ls)) \<rparr>"

definition sample_env :: env where
  "sample_env = \<lparr> date_iso = ''2024-01-01T00:00:00.000Z'', performance_now = 0,
                    navigator_userAgent = ''agent'', location_href = ''http://localhost/'',
                    file_stamp = ''2024-01-01T00:00:00.000Z'', setItem_throws = None \<rparr>"


section \<open>Properties\<close>

subsection \<open>What a logging call does to the logger\<close>

lemma push_bounded_nat:
  "push_bounded cap xs x = (if nat cap \<le> length xs then tl (xs @ [x]) else xs @ [x])"
  by (auto simp: push_bounded_def Let_def)

lemma length_push_bounded:
  "int (length xs) \<le> max 0 cap \<Longrightarrow> int (length (push_bounded cap xs x)) \<le> max 0 cap"
  by (auto simp: push_bounded_def Let_def)

lemma push_bounded_full:
  "int (length xs) = cap \<Longrightarrow> 0 < cap \<Longrightarrow> push_bounded cap xs x = tl xs @ [x]"
  by (cases xs) (auto simp: push_bounded_def Let_def)

lemma push_bounded_positive:
  "0 < cap \<Longrightarrow> push_bounded cap xs x \<noteq> [] \<and> last (push_bounded cap xs x) = x"
  by (cases xs) (auto simp: push_bounded_def Let_def)

lemma log_call_eq: "log_call H e lvl msg d s = Logger_log H e lvl msg d s"
  by (cases lvl) (simp_all add: debug_def info_def warn_def error_def success_def)

lemma Logger_log_disabled: "\<not> enabled (fst s) \<Longrightarrow> Logger_log H e lvl msg d s = s"
  by (cases s) (simp add: Logger_log_def)

lemma logs_Logger_log:
  "logs (fst (Logger_log H e lvl msg d s)) =
     (if enabled (fst s) then push_bounded (maxLogs (fst s)) (logs (fst s)) (make_entry e lvl msg d)
      else logs (fst s))"
  by (cases s) (simp add: Logger_log_def Let_def)

lemma config_Logger_log:
  "enabled (fst (Logger_log H e lvl msg d s)) = enabled (fst s)"
  "maxLogs (fst (Logger_log H e lvl msg d s)) = maxLogs (fst s)"
  "logToStorage (fst (Logger_log H e lvl msg d s)) = logToStorage (fst s)"
  "logToConsole (fst (Logger_log H e lvl msg d s)) = logToConsole (fst s)"
  "prefix (fst (Logger_log H e lvl msg d s)) = prefix (fst s)"
  "performanceMarks (fst (Logger_log H e lvl msg d s)) = performanceMarks (fst s)"
  by (cases s; simp add: Logger_log_def Let_def)+

lemma bounded_new_Logger: "bounded (new_Logger opts)"
  by (simp add: bounded_def new_Logger_def split: option.split)

lemma bounded_Logger_log: "bounded (fst s) \<Longrightarrow> bounded (fst (Logger_log H e lvl msg d s))"
  by (simp add: bounded_def config_Logger_log logs_Logger_log length_push_bounded)

lemma exec_keeps:
  "enabled (fst (exec H e c s)) = enabled (fst s)"
  "maxLogs (fst (exec H e c s)) = maxLogs (fst s)"
  "logToStorage (fst (exec H e c s)) = logToStorage (fst s)"
  by (cases c; cases s;
      simp add: log_call_eq config_Logger_log startPerformance_def endPerformance_def
        clearLogs_def exportLogs_def debug_def info_def success_def Let_def)+

lemma bounded_exec: "bounded (fst s) \<Longrightarrow> bounded (fst (exec H e c s))"
proof (cases c)
  case (Log lvl msg d)
  assume "bounded (fst s)"
  then show ?thesis using Log by (simp add: log_call_eq bounded_Logger_log)
next
  case (StartPerformance label)
  assume b: "bounded (fst s)"
  obtain l w where s: "s = (l, w)" by (cases s)
  from b s have "bounded (fst (l\<lparr>performanceMarks := put_mark (performanceMarks l) label (performance_now e)\<rparr>, w))"
    by (simp add: bounded_def)
  then show ?thesis using StartPerformance s
    by (simp add: startPerformance_def debug_def bounded_Logger_log)
next
  case (EndPerformance label)
  assume b: "bounded (fst s)"
  obtain l w where s: "s = (l, w)" by (cases s)
  have "bounded (fst (Logger_log H e INFO m None (l, w)))" for m
    using b s bounded_Logger_log[of "(l, w)"] by simp
  then show ?thesis using EndPerformance s b
    by (simp add: endPerformance_def info_def Let_def bounded_def)
next
  case ClearLogs
  assume b: "bounded (fst s)"
  obtain l w where s: "s = (l, w)" by (cases s)
  have "bounded (fst (l\<lparr>logs := []\<rparr>, w'))" for w' :: world
    using b s by (simp add: bounded_def)
  then show ?thesis using ClearLogs s
    by (simp add: clearLogs_def info_def Let_def bounded_Logger_log)
next
  case ExportLogs
  assume b: "bounded (fst s)"
  obtain l w where s: "s = (l, w)" by (cases s)
  have "bounded (fst (l, w'))" for w' :: world
    using b s by simp
  then show ?thesis using ExportLogs s
    by (simp add: exportLogs_def success_def Let_def bounded_Logger_log)
qed

lemma run_keeps:
  "enabled (fst (run H ecs s)) = enabled (fst s)"
  "maxLogs (fst (run H ecs s)) = maxLogs (fst s)"
  "logToStorage (fst (run H ecs s)) = logToStorage (fst s)"
  by (induction ecs arbitrary: s; simp add: exec_keeps)+

lemma bounded_run: "bounded (fst s) \<Longrightarrow> bounded (fst (run H ecs s))"
  by (induction ecs arbitrary: s) (simp_all add: bounded_exec)

lemma bounded_reachable: "run H ecs (new_Logger opts, w0) = (l, w) \<Longrightarrow> bounded l"
  using bounded_run[of "(new_Logger opts, w0)" H ecs] by (simp add: bounded_new_Logger)

subsection \<open>The buffer holds the most recent entries\<close>

lemma push_bounded_below:
  "length xs < nat cap \<Longrightarrow> push_bounded cap xs x = xs @ [x]"
  by (simp add: push_bounded_nat)

lemma push_bounded_at:
  "length xs = nat cap \<Longrightarrow> push_bounded cap xs x = tl (xs @ [x])"
  by (simp add: push_bounded_nat)

lemma drop_after_shift:
  "length zs = Suc cap \<Longrightarrow>
   drop (length (tl zs) + k - cap) (tl zs @ ys) = drop (length zs + k - cap) (zs @ ys)"
  by (cases zs) simp_all

lemma logs_log_calls:
  "enabled (fst s) \<Longrightarrow> length (logs (fst s)) \<le> nat (maxLogs (fst s)) \<Longrightarrow>
   logs (fst (log_calls H cs s)) =
     drop (length (logs (fst s)) + length cs - nat (maxLogs (fst s))) (logs (fst s) @ map entry_of cs)"
proof (induction cs arbitrary: s)
  case Nil
  then show ?case by simp
next
  case (Cons c cs)
  obtain e lvl msg d where c: "c = (e, lvl, msg, d)" by (cases c)
  let ?s1 = "Logger_log H e lvl msg d s"
  let ?xs = "logs (fst s)" and ?cap = "nat (maxLogs (fst s))"
  have len1: "length (logs (fst ?s1)) \<le> nat (maxLogs (fst ?s1))"
    using Cons.prems by (simp add: logs_Logger_log config_Logger_log push_bounded_nat)
  have en1: "enabled (fst ?s1)"
    using Cons.prems by (simp add: config_Logger_log)
  have step: "logs (fst (log_calls H (c # cs) s)) =
      drop (length (logs (fst ?s1)) + length cs - ?cap) (logs (fst ?s1) @ map entry_of cs)"
    using Cons.IH[OF en1 len1] by (simp add: c log_call_eq config_Logger_log)
  show ?case
  proof (cases "length ?xs < ?cap")
    case True
    then have l1: "logs (fst ?s1) = ?xs @ [entry_of c]"
      using Cons.prems by (simp add: logs_Logger_log push_bounded_below entry_of_def c)
    have "drop (length (logs (fst ?s1)) + length cs - ?cap) (logs (fst ?s1) @ map entry_of cs)
        = drop (length (?xs @ [entry_of c]) + length cs - ?cap)
            ((?xs @ [entry_of c]) @ map entry_of cs)"
      by (simp only: l1)
    also have "\<dots> = drop (length ?xs + length (c # cs) - ?cap) (?xs @ map entry_of (c # cs))"
      by simp
    finally show ?thesis by (simp only: step)
  next
    case False
    then have full: "length ?xs = ?cap" using Cons.prems(2) by simp
    then have l1: "logs (fst ?s1) = tl (?xs @ [entry_of c])"
      using Cons.prems by (simp add: logs_Logger_log push_bounded_at entry_of_def c)
    have "length (?xs @ [entry_of c]) = Suc ?cap"
      using full by simp
    from drop_after_shift[OF this, of "length cs" "map entry_of cs"]
    have "drop (length (logs (fst ?s1)) + length cs - ?cap) (logs (fst ?s1) @ map entry_of cs)
        = drop (length (?xs @ [entry_of c]) + length cs - ?cap)
            ((?xs @ [entry_of c]) @ map entry_of cs)"
      by (simp only: l1)
    also have "\<dots> = drop (length ?xs + length (c # cs) - ?cap) (?xs @ map entry_of (c # cs))"
      by simp
    finally show ?thesis by (simp only: step)
  qed
qed

text \<open>
  Claim C1. For every Logger with capacity \<^verbatim>\<open>maxLogs\<close> = C that is enabled, and
  every sequence of more than C calls of the logging methods, the buffer afterwards holds
  exactly the C most recent entries, oldest first. A Logger is what the constructor
  built, after any calls of its methods; C counts entries, so a negative capacity keeps
  the last 0 of them.
\<close>

theorem buffer_keeps_most_recent:
  assumes "run H ecs (new_Logger opts, w0) = (l, w)"
    and "enabled l"
    and "maxLogs l < int (length cs)"
  shows "getLogs (fst (log_calls H cs (l, w))) = drop (length cs - nat (maxLogs l)) (map entry_of cs)
         \<and> length (getLogs (fst (log_calls H cs (l, w)))) = nat (maxLogs l)"
proof -
  have len: "length (logs l) \<le> nat (maxLogs l)"
    using bounded_reachable[OF assms(1)] by (auto simp: bounded_def max_def split: if_splits)
  then have "logs (fst (log_calls H cs (l, w))) =
      drop (length (logs l) + length cs - nat (maxLogs l)) (logs l @ map entry_of cs)"
    using logs_log_calls[of "(l, w)" H cs] assms(2) by simp
  also have "\<dots> = drop (length cs - nat (maxLogs l)) (map entry_of cs)"
    using assms(3) len by simp
  finally show ?thesis using assms(3) by (simp add: getLogs_def)
qed

text \<open>
  The example of claim C1: with \<^verbatim>\<open>maxLogs = 3\<close>, after
  \<^verbatim>\<open>info("a")\<close>, \<^verbatim>\<open>info("b")\<close>, \<^verbatim>\<open>info("c")\<close> and
  \<^verbatim>\<open>info("d")\<close> the messages of \<^verbatim>\<open>getLogs()\<close> are b, c, d.
\<close>

theorem buffer_keeps_most_recent_example:
  "map message (getLogs (fst (log_calls sample_host
      [(sample_env, INFO, ''a'', None), (sample_env, INFO, ''b'', None),
       (sample_env, INFO, ''c'', None), (sample_env, INFO, ''d'', None)]
      (new_Logger (default_options\<lparr>opt_maxLogs := Some 3\<rparr>), empty_world)))) = [''b'', ''c'', ''d'']"
proof -
  have r: "run sample_host [] (new_Logger (default_options\<lparr>opt_maxLogs := Some 3\<rparr>), empty_world)
             = (new_Logger (default_options\<lparr>opt_maxLogs := Some 3\<rparr>), empty_world)"
    by simp
  have en: "enabled (new_Logger (default_options\<lparr>opt_maxLogs := Some 3\<rparr>))"
    by (simp add: new_Logger_def default_options_def)
  have n: "maxLogs (new_Logger (default_options\<lparr>opt_maxLogs := Some 3\<rparr>)) = 3"
    by (simp add: new_Logger_def default_options_def)
  have more: "maxLogs (new_Logger (default_options\<lparr>opt_maxLogs := Some 3\<rparr>))
      < int (length [(sample_env, INFO, ''a'', None :: jsval option), (sample_env, INFO, ''b'', None),
                (sample_env, INFO, ''c'', None), (sample_env, INFO, ''d'', None)])"
    by (simp add: n)
  show ?thesis
    using buffer_keeps_most_recent[OF r en more]
    by (simp add: n entry_of_def make_entry_def)
qed


subsection \<open>The bound of the buffer\<close>

text \<open>
  Claim C7 says that for every Logger with capacity \<^verbatim>\<open>maxLogs\<close> = C the length
  of the buffer never exceeds C. Line 9 keeps a negative \<^verbatim>\<open>maxLogs\<close>: with
  \<^verbatim>\<open>maxLogs = -1\<close> the buffer is empty at construction and after a logging call
  (line 33 holds after every push, line 34 shifts the entry out), and its length 0
  exceeds C.
\<close>

theorem buffer_exceeds_negative_capacity_counterexample:
  "maxLogs (new_Logger (default_options\<lparr>opt_maxLogs := Some (- 1)\<rparr>))
     < int (length (logs (new_Logger (default_options\<lparr>opt_maxLogs := Some (- 1)\<rparr>))))
   \<and> maxLogs (fst (run sample_host [(sample_env, Log INFO ''a'' None)]
         (new_Logger (default_options\<lparr>opt_maxLogs := Some (- 1)\<rparr>), empty_world)))
     < int (length (logs (fst (run sample_host [(sample_env, Log INFO ''a'' None)]
         (new_Logger (default_options\<lparr>opt_maxLogs := Some (- 1)\<rparr>), empty_world)))))"
  by (simp add: info_def logs_Logger_log config_Logger_log new_Logger_def default_options_def
      push_bounded_def)

text \<open>
  Claim C7, amended. For every Logger, after any sequence of the public operations (the
  five logging methods, \<^verbatim>\<open>startPerformance\<close>, \<^verbatim>\<open>endPerformance\<close>,
  \<^verbatim>\<open>clearLogs\<close>, \<^verbatim>\<open>exportLogs\<close>) the capacity C is the one the
  constructor set; when C is not negative the buffer is no longer than C, and when C is
  negative the buffer is empty; a logging call on a buffer of length C drops the oldest
  entry and appends the new one.
\<close>

theorem buffer_never_exceeds_capacity:
  assumes "run H ecs (new_Logger opts, w0) = (l, w)"
  shows "maxLogs l = maxLogs (new_Logger opts)
         \<and> (0 \<le> maxLogs l \<longrightarrow> int (length (logs l)) \<le> maxLogs l)
         \<and> (maxLogs l < 0 \<longrightarrow> logs l = [])
         \<and> (enabled l \<and> int (length (logs l)) = maxLogs l \<longrightarrow>
              logs (fst (log_call H e lvl msg d (l, w))) =
                tl (logs l) @ [\<lparr> timestamp = date_iso e, logEntry.level = lvl, message = msg,
                                 data = (case d of None \<Rightarrow> JNull | Some v \<Rightarrow> v),
                                 userAgent = navigator_userAgent e, url = location_href e \<rparr>])"
proof -
  have b: "bounded l" using bounded_reachable[OF assms] .
  have m: "maxLogs l = maxLogs (new_Logger opts)"
    using run_keeps(2)[of H ecs "(new_Logger opts, w0)"] assms by simp
  have within: "int (length (logs l)) \<le> maxLogs l" if "0 \<le> maxLogs l"
    using b that by (simp add: bounded_def)
  have none: "logs l = []" if "maxLogs l < 0"
    using b that by (simp add: bounded_def)
  have evict: "logs (fst (log_call H e lvl msg d (l, w))) = tl (logs l) @ [make_entry e lvl msg d]"
    if "enabled l" and "int (length (logs l)) = maxLogs l"
  proof -
    have "0 < maxLogs l" using b that(2) by (auto simp: bounded_def)
    then show ?thesis
      using that by (simp add: log_call_eq logs_Logger_log push_bounded_full)
  qed
  show ?thesis
    using m within none evict by (simp add: make_entry_def)
qed

text \<open>
  An instance of the amended claim C7: capacity 2, a logging call and a
  \<^verbatim>\<open>startPerformance\<close> fill the buffer, and the next logging call evicts the
  oldest entry.
\<close>

theorem buffer_never_exceeds_capacity_example:
  "int (length (logs (fst (run sample_host
       [(sample_env, Log INFO ''a'' None), (sample_env, StartPerformance ''x'')]
       (new_Logger (default_options\<lparr>opt_maxLogs := Some 2\<rparr>), empty_world))))) \<le> 2
   \<and> map message (logs (fst (log_call sample_host sample_env WARN ''c'' None
        (run sample_host
          [(sample_env, Log INFO ''a'' None), (sample_env, StartPerformance ''x'')]
          (new_Logger (default_options\<lparr>opt_maxLogs := Some 2\<rparr>), empty_world)))))
       = [''Performance tracking started: x'', ''c'']"
proof -
  let ?s = "run sample_host
       [(sample_env, Log INFO ''a'' None), (sample_env, StartPerformance ''x'')]
       (new_Logger (default_options\<lparr>opt_maxLogs := Some 2\<rparr>), empty_world)"
  have r: "?s = (fst ?s, snd ?s)" by simp
  have l: "map message (logs (fst ?s)) = [''a'', ''Performance tracking started: x'']"
    by (simp add: startPerformance_def debug_def info_def logs_Logger_log config_Logger_log
        new_Logger_def default_options_def push_bounded_def make_entry_def split_beta)
  have en: "enabled (fst ?s)"
    by (simp only: run_keeps fst_conv) (simp add: new_Logger_def default_options_def)
  have m: "maxLogs (fst ?s) = 2"
    by (simp only: run_keeps fst_conv) (simp add: new_Logger_def default_options_def)
  have len: "length (logs (fst ?s)) = 2"
    using arg_cong[OF l, of length] by simp
  show ?thesis
    using buffer_never_exceeds_capacity[OF r, of sample_env WARN "''c''" None] en m len l
    by (simp add: map_tl)
qed

subsection \<open>A disabled logger\<close>

text \<open>
  Claim C3. For every Logger constructed with \<^verbatim>\<open>enabled = false\<close>, whatever was
  called on it before, a call of \<^verbatim>\<open>debug\<close>, \<^verbatim>\<open>info\<close>, \<^verbatim>\<open>warn\<close>,
  \<^verbatim>\<open>error\<close> or \<^verbatim>\<open>success\<close> with any message and payload leaves the
  logger (hence its buffer) and the world (the store, the console, the downloads) exactly
  as they were.
\<close>

theorem disabled_logger_is_silent:
  assumes "opt_enabled opts = Some False"
    and "run H ecs (new_Logger opts, w0) = (l, w)"
  shows "debug H e msg d (l, w) = (l, w) \<and> info H e msg d (l, w) = (l, w)
       \<and> warn H e msg d (l, w) = (l, w) \<and> error H e msg d (l, w) = (l, w)
       \<and> success H e msg d (l, w) = (l, w)"
proof -
  have "enabled (fst (run H ecs (new_Logger opts, w0))) = enabled (new_Logger opts)"
    by (simp add: run_keeps)
  then have "\<not> enabled l"
    using assms by (simp add: new_Logger_def)
  then show ?thesis
    by (simp add: debug_def info_def warn_def error_def success_def Logger_log_disabled)
qed

text \<open>An instance of claim C3, on a disabled logger with mirroring on.\<close>

theorem disabled_logger_is_silent_example:
  "debug sample_host sample_env ''m'' (Some (JString ''p''))
     (new_Logger (default_options\<lparr>opt_enabled := Some False, opt_storage := Some True\<rparr>), empty_world)
     = (new_Logger (default_options\<lparr>opt_enabled := Some False, opt_storage := Some True\<rparr>), empty_world)
   \<and> error sample_host sample_env ''m'' (Some (JString ''p''))
     (new_Logger (default_options\<lparr>opt_enabled := Some False, opt_storage := Some True\<rparr>), empty_world)
     = (new_Logger (default_options\<lparr>opt_enabled := Some False, opt_storage := Some True\<rparr>), empty_world)"
proof -
  have off: "opt_enabled (default_options\<lparr>opt_enabled := Some False, opt_storage := Some True\<rparr>) = Some False"
    by simp
  have r: "run sample_host []
      (new_Logger (default_options\<lparr>opt_enabled := Some False, opt_storage := Some True\<rparr>), empty_world)
       = (new_Logger (default_options\<lparr>opt_enabled := Some False, opt_storage := Some True\<rparr>), empty_world)"
    by simp
  show ?thesis
    using disabled_logger_is_silent[OF off r, of sample_env "''m''" "Some (JString ''p'')"] by simp
qed

subsection \<open>Clearing the buffer\<close>

text \<open>
  Claim C6 says that on an enabled logger the buffer after \<^verbatim>\<open>clearLogs()\<close> is
  the notice alone. With \<^verbatim>\<open>maxLogs = -1\<close>, which line 9 keeps, the notice is
  pushed at line 30 and shifted out at line 34: the logger is enabled and the buffer is
  empty.
\<close>

theorem clearLogs_negative_capacity_counterexample:
  "enabled (new_Logger (default_options\<lparr>opt_maxLogs := Some (- 1)\<rparr>))
   \<and> logs (fst (clearLogs sample_host sample_env
        (new_Logger (default_options\<lparr>opt_maxLogs := Some (- 1)\<rparr>), empty_world))) = []"
  by (simp add: clearLogs_def info_def Let_def logs_Logger_log new_Logger_def default_options_def
      push_bounded_def)

text \<open>
  Claim C6, amended. After \<^verbatim>\<open>clearLogs()\<close>, from any state of the logger, the
  buffer is empty or holds exactly one entry, the notice with level info and message
  \<^verbatim>\<open>Logs cleared\<close>, never more; it is the notice alone when the logger is
  enabled and its capacity is positive, and empty when the logger is disabled or its
  capacity is not positive.
\<close>

theorem clearLogs_leaves_at_most_the_notice:
  "(logs (fst (clearLogs H e (l, w))) = []
      \<or> logs (fst (clearLogs H e (l, w))) =
          [\<lparr> timestamp = date_iso e, logEntry.level = INFO, message = ''Logs cleared'',
             data = JNull, userAgent = navigator_userAgent e, url = location_href e \<rparr>])
   \<and> length (logs (fst (clearLogs H e (l, w)))) \<le> 1
   \<and> (\<not> enabled l \<longrightarrow> logs (fst (clearLogs H e (l, w))) = [])
   \<and> (enabled l \<and> 0 < maxLogs l \<longrightarrow>
        logs (fst (clearLogs H e (l, w))) =
          [\<lparr> timestamp = date_iso e, logEntry.level = INFO, message = ''Logs cleared'',
             data = JNull, userAgent = navigator_userAgent e, url = location_href e \<rparr>])
   \<and> (enabled l \<and> maxLogs l \<le> 0 \<longrightarrow> logs (fst (clearLogs H e (l, w))) = [])"
proof -
  have any: "logs (fst (clearLogs H e (l, w))) =
      (if enabled l then push_bounded (maxLogs l) [] (make_entry e INFO ''Logs cleared'' None) else [])"
    by (simp add: clearLogs_def info_def Let_def logs_Logger_log)
  show ?thesis
    by (auto simp: any push_bounded_def Let_def make_entry_def)
qed

text \<open>
  Instances of the amended claim C6: an enabled logger of capacity 100 with two entries
  keeps the notice alone, at level info; a disabled one keeps nothing.
\<close>

theorem clearLogs_leaves_at_most_the_notice_example:
  "map message (logs (fst (clearLogs sample_host sample_env
      (run sample_host [(sample_env, Log INFO ''a'' None), (sample_env, Log WARN ''b'' None)]
         (new_Logger default_options, empty_world))))) = [''Logs cleared'']
   \<and> map logEntry.level (logs (fst (clearLogs sample_host sample_env
      (run sample_host [(sample_env, Log INFO ''a'' None), (sample_env, Log WARN ''b'' None)]
         (new_Logger default_options, empty_world))))) = [INFO]
   \<and> logs (fst (clearLogs sample_host sample_env
        (new_Logger (default_options\<lparr>opt_enabled := Some False\<rparr>), empty_world))) = []"
proof -
  let ?s = "run sample_host [(sample_env, Log INFO ''a'' None), (sample_env, Log WARN ''b'' None)]
         (new_Logger default_options, empty_world)"
  have en: "enabled (fst ?s)"
    by (simp only: run_keeps fst_conv) (simp add: new_Logger_def default_options_def)
  have m: "0 < maxLogs (fst ?s)"
    by (simp only: run_keeps fst_conv) (simp add: new_Logger_def default_options_def)
  have off: "\<not> enabled (new_Logger (default_options\<lparr>opt_enabled := Some False\<rparr>))"
    by (simp add: new_Logger_def)
  show ?thesis
    using clearLogs_leaves_at_most_the_notice[of sample_host sample_env "fst ?s" "snd ?s"]
      clearLogs_leaves_at_most_the_notice[of sample_host sample_env
        "new_Logger (default_options\<lparr>opt_enabled := Some False\<rparr>)" empty_world]
      en m off
    by simp
qed

subsection \<open>The default capacity\<close>

text \<open>
  Claim C9. Constructing a Logger with \<^verbatim>\<open>maxLogs = 0\<close>, the falsy integer, or
  with \<^verbatim>\<open>maxLogs\<close> absent, gives the capacity 100, and the same logger in both
  cases; no constructed Logger has the capacity 0.
\<close>

theorem maxLogs_zero_is_the_default:
  "maxLogs (new_Logger (opts\<lparr>opt_maxLogs := Some 0\<rparr>)) = 100
   \<and> maxLogs (new_Logger (opts\<lparr>opt_maxLogs := None\<rparr>)) = 100
   \<and> new_Logger (opts\<lparr>opt_maxLogs := Some 0\<rparr>) = new_Logger (opts\<lparr>opt_maxLogs := None\<rparr>)
   \<and> maxLogs (new_Logger opts) \<noteq> 0"
  by (simp add: new_Logger_def split: option.split)

subsection \<open>A rejected write\<close>

text \<open>The store after a logging call, and the whole call when the write throws.\<close>

lemma storage_Logger_log:
  "storage (snd (Logger_log H e lvl msg d s)) =
     (if enabled (fst s) \<and> logToStorage (fst s) \<and> setItem_throws e = None
      then (storage (snd s))(logs_key \<mapsto> stringify H (logs (fst (Logger_log H e lvl msg d s))))
      else storage (snd s))"
  by (cases s) (simp add: Logger_log_def Let_def mirror_def setItem_def emit_def split: option.split)

lemma Logger_log_rejected:
  assumes "enabled l" and "logToStorage l" and "setItem_throws e = Some err"
  shows "Logger_log H e lvl msg d (l, w) =
     (l\<lparr>logs := push_bounded (maxLogs l) (logs l) (make_entry e lvl msg d)\<rparr>,
      (if logToConsole l
       then emit l lvl msg (data (make_entry e lvl msg d))
              (w\<lparr>console := console w @ [ConsoleWarn ''Failed to save logs to storage:'' err]\<rparr>)
       else w\<lparr>console := console w @ [ConsoleWarn ''Failed to save logs to storage:'' err]\<rparr>))"
  using assms by (simp add: Logger_log_def Let_def mirror_def setItem_def emit_def)

lemma fst_Logger_log_env:
  "fst (Logger_log H e lvl msg d s) = fst (Logger_log H (e\<lparr>setItem_throws := x\<rparr>) lvl msg d s)"
  by (cases s) (simp add: Logger_log_def Let_def make_entry_def)

text \<open>
  Claim C8 says that when the write throws, the entry appended by the call remains in
  the buffer. With \<^verbatim>\<open>maxLogs = -1\<close>, which line 9 keeps, lines 33 and 34 shift
  the entry out before the write is tried: on this enabled logger with mirroring on, the
  buffer after the rejected write is empty.
\<close>

theorem storage_failure_negative_capacity_counterexample:
  "enabled (new_Logger (default_options\<lparr>opt_storage := Some True, opt_maxLogs := Some (- 1)\<rparr>))
   \<and> logToStorage (new_Logger (default_options\<lparr>opt_storage := Some True, opt_maxLogs := Some (- 1)\<rparr>))
   \<and> logs (fst (info sample_host (sample_env\<lparr>setItem_throws := Some ''QuotaExceededError''\<rparr>)
        ''a'' None
        (new_Logger (default_options\<lparr>opt_storage := Some True, opt_maxLogs := Some (- 1)\<rparr>),
         empty_world))) = []"
  by (simp add: info_def logs_Logger_log new_Logger_def default_options_def push_bounded_def)

text \<open>
  Claim C8, amended. On every enabled logger with storage mirroring on, when
  \<^verbatim>\<open>localStorage.setItem\<close> throws during a logging call, the call still returns
  (the method is a total function of its inputs: the \<^verbatim>\<open>catch\<close> of line 41 is the
  only continuation of the throw), the logger is the one a successful write would have
  left, the store and the downloads are untouched, and the console receives one warning
  with the error, followed by the line of the entry if console output is on; when the
  capacity is positive, the entry of this call is the last of the buffer.
\<close>

theorem storage_failure_is_contained:
  assumes "enabled l" and "logToStorage l"
    and "setItem_throws e = Some err"
  shows "fst (log_call H e lvl msg d (l, w)) = fst (log_call H (e\<lparr>setItem_throws := None\<rparr>) lvl msg d (l, w))
       \<and> storage (snd (log_call H e lvl msg d (l, w))) = storage w
       \<and> downloads (snd (log_call H e lvl msg d (l, w))) = downloads w
       \<and> console (snd (log_call H e lvl msg d (l, w))) =
           console w @ [ConsoleWarn ''Failed to save logs to storage:'' err]
             @ (if logToConsole l
                then [ConsoleLog (''%c'' @ prefix l @ '' ['' @ toUpperCase (severity_name lvl) @ '']'')
                        (Logger_getLogStyle lvl) msg
                        (case d of None \<Rightarrow> JString '''' | Some v \<Rightarrow> if truthy v then v else JString '''')]
                else [])
       \<and> (0 < maxLogs l \<longrightarrow>
            logs (fst (log_call H e lvl msg d (l, w))) \<noteq> []
            \<and> last (logs (fst (log_call H e lvl msg d (l, w)))) =
                \<lparr> timestamp = date_iso e, logEntry.level = lvl, message = msg,
                  data = (case d of None \<Rightarrow> JNull | Some v \<Rightarrow> v),
                  userAgent = navigator_userAgent e, url = location_href e \<rparr>)"
proof -
  have same: "fst (log_call H e lvl msg d (l, w))
      = fst (log_call H (e\<lparr>setItem_throws := None\<rparr>) lvl msg d (l, w))"
    unfolding log_call_eq by (rule fst_Logger_log_env)
  have call: "log_call H e lvl msg d (l, w) =
     (l\<lparr>logs := push_bounded (maxLogs l) (logs l) (make_entry e lvl msg d)\<rparr>,
      (if logToConsole l
       then emit l lvl msg (data (make_entry e lvl msg d))
              (w\<lparr>console := console w @ [ConsoleWarn ''Failed to save logs to storage:'' err]\<rparr>)
       else w\<lparr>console := console w @ [ConsoleWarn ''Failed to save logs to storage:'' err]\<rparr>))"
    unfolding log_call_eq by (rule Logger_log_rejected[OF assms])
  have entry: "make_entry e lvl msg d =
      \<lparr> timestamp = date_iso e, logEntry.level = lvl, message = msg,
        data = (case d of None \<Rightarrow> JNull | Some v \<Rightarrow> v),
        userAgent = navigator_userAgent e, url = location_href e \<rparr>"
    by (simp add: make_entry_def)
  have kept: "logs (fst (log_call H e lvl msg d (l, w))) \<noteq> []
      \<and> last (logs (fst (log_call H e lvl msg d (l, w)))) = make_entry e lvl msg d"
    if "0 < maxLogs l"
    using push_bounded_positive[OF that] by (simp add: call)
  have world: "storage (snd (log_call H e lvl msg d (l, w))) = storage w
       \<and> downloads (snd (log_call H e lvl msg d (l, w))) = downloads w
       \<and> console (snd (log_call H e lvl msg d (l, w))) =
           console w @ [ConsoleWarn ''Failed to save logs to storage:'' err]
             @ (if logToConsole l
                then [ConsoleLog (''%c'' @ prefix l @ '' ['' @ toUpperCase (severity_name lvl) @ '']'')
                        (Logger_getLogStyle lvl) msg
                        (case d of None \<Rightarrow> JString '''' | Some v \<Rightarrow> if truthy v then v else JString '''')]
                else [])"
    by (simp add: call emit_def entry split: option.split)
  show ?thesis
    using same world kept unfolding entry by blast
qed

text \<open>
  An instance of the amended claim C8: capacity 100, a write rejected for lack of quota,
  console output off.
\<close>

theorem storage_failure_is_contained_example:
  "map message (logs (fst (info sample_host (sample_env\<lparr>setItem_throws := Some ''QuotaExceededError''\<rparr>)
       ''a'' None (new_Logger (default_options\<lparr>opt_storage := Some True, opt_console := Some False\<rparr>), empty_world))))
     = [''a'']
   \<and> storage (snd (info sample_host (sample_env\<lparr>setItem_throws := Some ''QuotaExceededError''\<rparr>)
       ''a'' None (new_Logger (default_options\<lparr>opt_storage := Some True, opt_console := Some False\<rparr>), empty_world)))
     = Map.empty
   \<and> console (snd (info sample_host (sample_env\<lparr>setItem_throws := Some ''QuotaExceededError''\<rparr>)
       ''a'' None (new_Logger (default_options\<lparr>opt_storage := Some True, opt_console := Some False\<rparr>), empty_world)))
     = [ConsoleWarn ''Failed to save logs to storage:'' ''QuotaExceededError'']"
proof -
  let ?l = "new_Logger (default_options\<lparr>opt_storage := Some True, opt_console := Some False\<rparr>)"
  let ?e = "sample_env\<lparr>setItem_throws := Some ''QuotaExceededError''\<rparr>"
  have en: "enabled ?l" by (simp add: new_Logger_def default_options_def)
  have st: "logToStorage ?l" by (simp add: new_Logger_def)
  have co: "\<not> logToConsole ?l" by (simp add: new_Logger_def)
  have th: "setItem_throws ?e = Some ''QuotaExceededError''" by simp
  have lg: "logs ?l = []" by (simp add: new_Logger_def)
  have mx: "maxLogs ?l = 100" by (simp add: new_Logger_def default_options_def)
  have one: "logs (fst (info sample_host ?e ''a'' None (?l, empty_world))) = [make_entry ?e INFO ''a'' None]"
    by (simp add: info_def logs_Logger_log en lg mx push_bounded_def)
  show ?thesis
    using storage_failure_is_contained[OF en st th, of sample_host INFO "''a''" None empty_world] co one mx
    by (simp add: empty_world_def make_entry_def)
qed

subsection \<open>The store after clearing\<close>

text \<open>
  Claim C2 says that with storage mirroring on the store has no logs key after
  \<^verbatim>\<open>clearLogs()\<close> returns. On an enabled logger it has one: line 114 removes the
  key, then line 116 logs the notice, and \<^verbatim>\<open>_log\<close> writes the buffer back
  under the same key. Here the store holds the serialized entry of an earlier call under
  the key before \<^verbatim>\<open>clearLogs()\<close> and the serialized notice after it.
\<close>

theorem clearLogs_key_present_counterexample:
  "logToStorage (new_Logger (default_options\<lparr>opt_storage := Some True\<rparr>))
   \<and> storage (snd (info sample_host sample_env ''a'' None
          (new_Logger (default_options\<lparr>opt_storage := Some True\<rparr>), empty_world))) logs_key
       = Some ''a;''
   \<and> storage (snd (clearLogs sample_host sample_env
          (info sample_host sample_env ''a'' None
            (new_Logger (default_options\<lparr>opt_storage := Some True\<rparr>), empty_world)))) logs_key
       = Some ''Logs cleared;''"
  by (simp add: clearLogs_def info_def Let_def split_beta storage_Logger_log logs_Logger_log
      config_Logger_log removeItem_def new_Logger_def default_options_def sample_env_def
      sample_host_def push_bounded_def make_entry_def)

text \<open>
  Claim C2, amended. With storage mirroring on, \<^verbatim>\<open>clearLogs()\<close> removes the logs
  key and then logs its notice: after it returns, the store has no logs key when the
  logger is disabled or the write of the notice is rejected, and otherwise holds under
  the logs key the buffer as \<^verbatim>\<open>clearLogs()\<close> leaves it, serialized; every other
  key is as it was.
\<close>

theorem clearLogs_store_afterwards:
  assumes "logToStorage l"
  shows "storage (snd (clearLogs H e (l, w))) =
     (if enabled l \<and> setItem_throws e = None
      then (storage w)(logs_key \<mapsto> stringify H (logs (fst (clearLogs H e (l, w)))))
      else (storage w)(logs_key := None))"
  using assms
  by (simp add: clearLogs_def info_def Let_def storage_Logger_log removeItem_def)

text \<open>
  An instance of the amended claim C2: a disabled logger with mirroring on; the logs key
  goes, the other key stays.
\<close>

theorem clearLogs_store_afterwards_example:
  "storage (snd (clearLogs sample_host sample_env
        (new_Logger (default_options\<lparr>opt_storage := Some True, opt_enabled := Some False\<rparr>),
         empty_world\<lparr>storage := [logs_key \<mapsto> ''[]'', ''theme'' \<mapsto> ''dark'']\<rparr>)))
     = [''theme'' \<mapsto> ''dark'']"
proof -
  have st: "logToStorage (new_Logger (default_options\<lparr>opt_storage := Some True, opt_enabled := Some False\<rparr>))"
    by (simp add: new_Logger_def)
  have off: "\<not> enabled (new_Logger (default_options\<lparr>opt_storage := Some True, opt_enabled := Some False\<rparr>))"
    by (simp add: new_Logger_def)
  show ?thesis
    using clearLogs_store_afterwards[OF st, of sample_host sample_env
        "empty_world\<lparr>storage := [logs_key \<mapsto> ''[]'', ''theme'' \<mapsto> ''dark'']\<rparr>"] off
    by (auto simp: logs_key_def fun_upd_def)
qed


subsection \<open>Performance marks\<close>

text \<open>
  What the two methods do to the marks and what \<^verbatim>\<open>endPerformance\<close> returns, by
  the truthiness of what line 97 reads.
\<close>

lemma marks_startPerformance:
  "performanceMarks (fst (startPerformance H e label s)) =
     put_mark (performanceMarks (fst s)) label (performance_now e)"
  by (cases s) (simp add: startPerformance_def debug_def config_Logger_log)

lemma endPerformance_truthy:
  assumes "truthy_property (get_mark (performanceMarks (fst s)) label)"
  shows "fst (endPerformance H e label s) = Some (elapsed H (performance_now e) (get_mark (performanceMarks (fst s)) label))"
    and "performanceMarks (fst (snd (endPerformance H e label s))) = delete_mark (performanceMarks (fst s)) label"
  using assms by (cases s; simp add: endPerformance_def Let_def info_def config_Logger_log)+

lemma endPerformance_falsy:
  assumes "\<not> truthy_property (get_mark (performanceMarks (fst s)) label)"
  shows "endPerformance H e label s = (None, s)"
  using assms by (cases s) (simp add: endPerformance_def)

text \<open>
  A start followed by an end, for a label other than \<^verbatim>\<open>__proto__\<close> and a nonzero
  reading of the clock at the start: \<^verbatim>\<open>endPerformance\<close> returns the difference
  of the two readings as the platform computes it, and the mark is gone. A second start
  overwrites the reading of the first.
\<close>

lemma start_then_end:
  assumes "label \<noteq> ''__proto__''"
    and "performance_now e0 \<noteq> 0"
  shows "fst (endPerformance H e1 label (startPerformance H e0 label s))
           = Some (Num (minus_number H (performance_now e1) (performance_now e0)))"
    and "performanceMarks (fst (snd (endPerformance H e1 label (startPerformance H e0 label s)))) label = None"
proof -
  let ?s1 = "startPerformance H e0 label s"
  have g: "get_mark (performanceMarks (fst ?s1)) label = Reading (performance_now e0)"
    using assms(1) by (simp add: marks_startPerformance put_mark_def get_mark_def)
  then have t: "truthy_property (get_mark (performanceMarks (fst ?s1)) label)"
    using assms(2) by simp
  show "fst (endPerformance H e1 label ?s1)
           = Some (Num (minus_number H (performance_now e1) (performance_now e0)))"
    using endPerformance_truthy(1)[OF t] g by simp
  show "performanceMarks (fst (snd (endPerformance H e1 label ?s1))) label = None"
    using endPerformance_truthy(2)[OF t] by (simp add: delete_mark_def)
qed

lemma restart_overwrites:
  assumes "label \<noteq> ''__proto__''"
  shows "performanceMarks (fst (startPerformance H e1 label (startPerformance H e0 label s))) label
           = Some (performance_now e1)"
  using assms by (simp add: marks_startPerformance put_mark_def)

text \<open>
  A label that was never started and is not a property of \<^verbatim>\<open>Object.prototype\<close>:
  \<^verbatim>\<open>endPerformance\<close> returns nothing and changes nothing.
\<close>

lemma endPerformance_unknown_label:
  assumes "performanceMarks (fst s) label = None" and "label \<notin> set Object_prototype"
  shows "endPerformance H e label s = (None, s)"
  using assms by (intro endPerformance_falsy) (simp add: get_mark_def)

text \<open>
  The flag \<^verbatim>\<open>enabled\<close> has no part in the marks or in the value returned.
\<close>

lemma performance_ignores_enabled:
  "performanceMarks (fst (startPerformance H e label (l\<lparr>enabled := b\<rparr>, w))) =
     performanceMarks (fst (startPerformance H e label (l, w)))"
  "fst (endPerformance H e label (l\<lparr>enabled := b\<rparr>, w)) = fst (endPerformance H e label (l, w))"
  "performanceMarks (fst (snd (endPerformance H e label (l\<lparr>enabled := b\<rparr>, w)))) =
     performanceMarks (fst (snd (endPerformance H e label (l, w))))"
  by (simp_all add: startPerformance_def endPerformance_def debug_def info_def Let_def config_Logger_log)

text \<open>
  Claim C4 says that for every label, \<^verbatim>\<open>startPerformance\<close> followed by
  \<^verbatim>\<open>endPerformance\<close> returns an elapsed time of at least 0 and removes the mark.
  Line 97 tests the stored reading for truthiness, and the number 0 is falsy: when the
  clock reads 0 at the start, \<^verbatim>\<open>endPerformance\<close> returns nothing and the mark
  stays. Here the clock reads 0 at the start and 5 at the end.
\<close>

theorem endPerformance_after_zero_reading:
  "fst (endPerformance sample_host (sample_env\<lparr>performance_now := 5\<rparr>) ''x''
         (startPerformance sample_host (sample_env\<lparr>performance_now := 0\<rparr>) ''x''
            (new_Logger default_options, empty_world))) = None
   \<and> performanceMarks (fst (snd (endPerformance sample_host (sample_env\<lparr>performance_now := 5\<rparr>) ''x''
         (startPerformance sample_host (sample_env\<lparr>performance_now := 0\<rparr>) ''x''
            (new_Logger default_options, empty_world))))) ''x'' = Some 0"
proof -
  let ?s1 = "startPerformance sample_host (sample_env\<lparr>performance_now := 0\<rparr>) ''x''
            (new_Logger default_options, empty_world)"
  have m: "performanceMarks (fst ?s1) ''x'' = Some 0"
    by (simp add: marks_startPerformance put_mark_def)
  then have "\<not> truthy_property (get_mark (performanceMarks (fst ?s1)) ''x'')"
    by (simp add: get_mark_def)
  then show ?thesis
    using m by (simp add: endPerformance_falsy)
qed

text \<open>
  Claim C5 says that for every label that is not in the marks,
  \<^verbatim>\<open>endPerformance\<close> returns nothing and adds no entry. Line 97 reads the label
  from an object literal, which answers for \<^verbatim>\<open>toString\<close> with the function it
  inherits: on a new logger, where no label was ever started,
  \<^verbatim>\<open>endPerformance("toString")\<close> returns NaN and logs an entry.
\<close>

theorem endPerformance_inherited_label:
  "performanceMarks (new_Logger default_options) ''toString'' = None
   \<and> fst (endPerformance sample_host sample_env ''toString'' (new_Logger default_options, empty_world))
       = Some NaN
   \<and> map message (logs (fst (snd (endPerformance sample_host sample_env ''toString''
        (new_Logger default_options, empty_world)))))
       = [''Performance: toString completed in NaNms'']"
proof -
  have g: "get_mark Map.empty ''toString'' = Inherited"
    by (simp add: get_mark_def Object_prototype_def)
  show ?thesis
    by (simp add: endPerformance_def g Let_def info_def logs_Logger_log new_Logger_def
        default_options_def push_bounded_def make_entry_def toFixed_def)
qed

text \<open>
  Claim C10 says that on a disabled logger \<^verbatim>\<open>startPerformance\<close> still records
  the mark and a following \<^verbatim>\<open>endPerformance\<close> still returns the elapsed time and
  removes the mark. The marks do not depend on the flag (\<open>performance_ignores_enabled\<close>),
  but the test of line 97 fails on a disabled logger as on an enabled one when the clock
  reads 0 at the start: nothing is returned and the mark stays.
\<close>

theorem disabled_endPerformance_after_zero_reading:
  "\<not> enabled (new_Logger (default_options\<lparr>opt_enabled := Some False\<rparr>))
   \<and> fst (endPerformance sample_host (sample_env\<lparr>performance_now := 5\<rparr>) ''x''
         (startPerformance sample_host (sample_env\<lparr>performance_now := 0\<rparr>) ''x''
            (new_Logger (default_options\<lparr>opt_enabled := Some False\<rparr>), empty_world))) = None
   \<and> performanceMarks (fst (snd (endPerformance sample_host (sample_env\<lparr>performance_now := 5\<rparr>) ''x''
         (startPerformance sample_host (sample_env\<lparr>performance_now := 0\<rparr>) ''x''
            (new_Logger (default_options\<lparr>opt_enabled := Some False\<rparr>), empty_world))))) ''x'' = Some 0"
proof -
  let ?s1 = "startPerformance sample_host (sample_env\<lparr>performance_now := 0\<rparr>) ''x''
            (new_Logger (default_options\<lparr>opt_enabled := Some False\<rparr>), empty_world)"
  have m: "performanceMarks (fst ?s1) ''x'' = Some 0"
    by (simp add: marks_startPerformance put_mark_def)
  then have "\<not> truthy_property (get_mark (performanceMarks (fst ?s1)) ''x'')"
    by (simp add: get_mark_def)
  then show ?thesis
    using m by (simp add: endPerformance_falsy new_Logger_def)
qed

end
